theory Spec2Isabelle
  imports Main
begin

section \<open>Time values and the Date operations the program uses\<close>

text \<open>
  A JavaScript \<open>Date\<close> holds a time value: an integral number of milliseconds since
  1970-01-01T00:00:00Z. The methods \<open>getDay\<close>, \<open>getDate\<close>, \<open>setHours\<close> and \<open>setDate\<close>
  work on the local time of the host process, through the abstract operations of
  ECMAScript (\<open>Day\<close>, \<open>TimeWithinDay\<close>, \<open>WeekDay\<close>, \<open>LocalTZA\<close>, \<open>LocalTime\<close>, \<open>UTC\<close>,
  \<open>MakeTime\<close>, \<open>MakeDay\<close>, \<open>MakeDate\<close>). Time values are unbounded integers; the range
  limit of \<open>Date\<close> (about 270 000 years around 1970) is not modelled.
\<close>

definition msPerDay :: int where
  "msPerDay = 86400000"

definition msPerHour :: int where
  "msPerHour = 3600000"

definition Day :: "int \<Rightarrow> int" where
  "Day t = t div msPerDay"

definition TimeWithinDay :: "int \<Rightarrow> int" where
  "TimeWithinDay t = t mod msPerDay"

text \<open>Day 0 (1 January 1970) was a Thursday; 0 is Sunday, 1 is Monday, 6 is Saturday.\<close>

definition WeekDay :: "int \<Rightarrow> int" where
  "WeekDay t = (Day t + 4) mod 7"

text \<open>
  The time zone of the host: the offset of its standard time (milliseconds east of
  UTC) and the spans of daylight-saving time, each from an instant up to but excluding
  a later instant, during which the local clock is one hour ahead of standard time. A
  zone without such spans has a constant offset.
\<close>

record zone =
  std_offset :: int
  dst_spans :: "(int \<times> int) list"

definition in_daylight :: "zone \<Rightarrow> int \<Rightarrow> bool" where
  "in_daylight z t = list_ex (\<lambda>span. fst span \<le> t \<and> t < snd span) (dst_spans z)"

text \<open>
  \<open>LocalTZA z t isUTC\<close>: the offset of local time. With \<open>isUTC\<close> the argument is an
  instant and the result is the offset in force at it. Otherwise the argument is a
  local time and the result is the offset that turns it into an instant: a local
  time that the clock shows twice (when it is set back) or never (when it is set
  forward) is read with the offset in force before the transition, that is as
  daylight time when set back and as standard time when set forward.
\<close>

definition LocalTZA :: "zone \<Rightarrow> int \<Rightarrow> bool \<Rightarrow> int" where
  "LocalTZA z t isUTC =
     (if isUTC then (if in_daylight z t then std_offset z + msPerHour else std_offset z)
      else (if in_daylight z (t - (std_offset z + msPerHour)) then std_offset z + msPerHour
            else std_offset z))"

definition LocalTime :: "zone \<Rightarrow> int \<Rightarrow> int" where
  "LocalTime z t = t + LocalTZA z t True"

definition UTC :: "zone \<Rightarrow> int \<Rightarrow> int" where
  "UTC z t = t - LocalTZA z t False"

definition MakeTime :: "int \<Rightarrow> int \<Rightarrow> int \<Rightarrow> int \<Rightarrow> int" where
  "MakeTime hour minute sec ms = hour * 3600000 + minute * 60000 + sec * 1000 + ms"

definition MakeDate :: "int \<Rightarrow> int \<Rightarrow> int" where
  "MakeDate day time = day * msPerDay + time"

text \<open>
  The day of the month (1 to 31) of a local time value in the proleptic Gregorian
  calendar, computed from the day number by the usual era / day-of-era decomposition
  with years starting on 1 March.
\<close>

definition DateFromTime :: "int \<Rightarrow> int" where
  "DateFromTime t =
     (let z = Day t + 719468;
          doe = z mod 146097;
          yoe = (doe - doe div 1460 + doe div 36524 - doe div 146096) div 365;
          doy = doe - (365 * yoe + yoe div 4 - yoe div 100);
          mp = (5 * doy + 2) div 153
      in doy - (153 * mp + 2) div 5 + 1)"

text \<open>
  \<open>MakeDay (YearFromTime t) (MonthFromTime t) dt\<close>: the day number of the first day of
  the month of \<open>t\<close>, plus \<open>dt - 1\<close>. A \<open>dt\<close> below 1 or beyond the month's length rolls
  over into the neighbouring months.
\<close>

definition MakeDayInMonthOf :: "int \<Rightarrow> int \<Rightarrow> int" where
  "MakeDayInMonthOf t dt = (Day t - (DateFromTime t - 1)) + dt - 1"

definition getDay :: "zone \<Rightarrow> int \<Rightarrow> int" where
  "getDay z d = WeekDay (LocalTime z d)"

definition getDate :: "zone \<Rightarrow> int \<Rightarrow> int" where
  "getDate z d = DateFromTime (LocalTime z d)"

definition getTime :: "int \<Rightarrow> int" where
  "getTime d = d"

text \<open>\<open>d.setHours(hour, minute, sec, ms)\<close>: the new time value of \<open>d\<close>.\<close>

definition setHours :: "zone \<Rightarrow> int \<Rightarrow> int \<Rightarrow> int \<Rightarrow> int \<Rightarrow> int \<Rightarrow> int" where
  "setHours z d hour minute sec ms =
     UTC z (MakeDate (Day (LocalTime z d)) (MakeTime hour minute sec ms))"

text \<open>\<open>d.setDate(dt)\<close>: the new time value of \<open>d\<close> (which the method also returns).\<close>

definition setDate :: "zone \<Rightarrow> int \<Rightarrow> int \<Rightarrow> int" where
  "setDate z d dt =
     (let t = LocalTime z d
      in UTC z (MakeDate (MakeDayInMonthOf t dt) (TimeWithinDay t)))"

section \<open>The helpers of \<open>index.js\<close>\<close>

definition getStartOfDay :: "zone \<Rightarrow> int \<Rightarrow> int" where
  "getStartOfDay z date = (let start = date in setHours z start 0 0 0 0)"

definition getEndOfDay :: "zone \<Rightarrow> int \<Rightarrow> int" where
  "getEndOfDay z date = (let end = date in setHours z end 23 59 59 999)"

record week =
  week_start :: int
  week_end :: int

definition getWeekBoundaries :: "zone \<Rightarrow> int \<Rightarrow> week" where
  "getWeekBoundaries z date =
     (let start = date;
          day = getDay z start;
          diff = getDate z start - day + (if day = 0 then - 6 else 1);
          weekStart = setDate z start diff;
          weekEnd = setDate z weekStart (getDate z weekStart + 6)
      in \<lparr>week_start = getStartOfDay z weekStart, week_end = getEndOfDay z weekEnd\<rparr>)"

section \<open>The classifier: \<open>determineTargetList\<close>\<close>

text \<open>
  \<open>card.due\<close> is \<open>null\<close> or a timestamp; \<open>None\<close> stands for the falsy value, \<open>Some d\<close>
  for a due date whose parsed time value is \<open>d\<close> (a due string that does not parse is
  not among the inputs of the model). The instant \<open>new Date()\<close> read inside the function
  is the parameter \<open>now\<close>. The result is the list name, as in the source.
\<close>

definition determineTargetList :: "zone \<Rightarrow> int \<Rightarrow> int option \<Rightarrow> string" where
  "determineTargetList z now dueDate =
     (case dueDate of
        None \<Rightarrow> ''Later''
      | Some due \<Rightarrow>
          (let today = getStartOfDay z now;
               tomorrow = setDate z today (getDate z today + 1);
               currentWeek = getWeekBoundaries z now;
               nextWeek = getWeekBoundaries z (getTime now + 7 * 24 * 60 * 60 * 1000)
           in if due < today then ''Overdue''
              else if due \<ge> today \<and> due < getEndOfDay z today then ''Today''
              else if due \<ge> tomorrow \<and> due < getEndOfDay z tomorrow then ''Tomorrow''
              else if due \<ge> getEndOfDay z tomorrow \<and> due \<le> week_end currentWeek
                then ''This week''
              else if due \<ge> week_start nextWeek \<and> due \<le> week_end nextWeek
                then ''Next week''
              else ''Later''))"

section \<open>The board, the network and the console\<close>

text \<open>
  A card as returned by the board API with \<open>fields=id,name,due,idList\<close>; the fields
  \<open>id\<close>, \<open>name\<close>, \<open>due\<close> and \<open>idList\<close> carry the prefix \<open>card_\<close>.
\<close>

record card =
  card_id :: string
  card_name :: string
  card_due :: "int option"
  card_idList :: string

text \<open>
  \<open>LIST_MAPPING\<close> is built once from the process environment \<open>env\<close>; a variable that
  is not set leaves its entry \<open>undefined\<close> (\<open>None\<close>).
\<close>

definition LIST_MAPPING :: "(string \<rightharpoonup> string) \<Rightarrow> string \<Rightarrow> string option" where
  "LIST_MAPPING env listName =
     (if listName = ''Overdue'' then env ''OVERDUE_LIST_ID''
      else if listName = ''Today'' then env ''TODAY_LIST_ID''
      else if listName = ''Tomorrow'' then env ''TOMORROW_LIST_ID''
      else if listName = ''This week'' then env ''THIS_WEEK_LIST_ID''
      else if listName = ''Next week'' then env ''NEXT_WEEK_LIST_ID''
      else if listName = ''Later'' then env ''LATER_LIST_ID''
      else None)"

record host =
  time_zone :: zone
  process_env :: "string \<rightharpoonup> string"

text \<open>
  What the network does with a request: the promise of \<open>fetch\<close> is rejected, or it
  resolves to a response with an HTTP status; \<open>response.ok\<close> holds for the statuses
  200 to 299. A request takes \<open>latency\<close> milliseconds, and a timer fires \<open>timer_lag\<close>
  milliseconds after its delay has passed. The body of a successful response is taken
  to parse.
\<close>

datatype fetch_outcome = Rejected | Responded nat

definition response_ok :: "nat \<Rightarrow> bool" where
  "response_ok status = (200 \<le> status \<and> status \<le> 299)"

record network =
  cards_outcome :: fetch_outcome
  move_outcome :: "string \<Rightarrow> string \<Rightarrow> fetch_outcome"
  latency :: nat
  timer_lag :: nat

datatype js_error = FetchFailed | HttpError nat

datatype event =
    Get_cards
  | Put_card string string
  | Timeout_set nat
  | Log_starting
  | Log_found nat
  | Error_fetching_cards js_error
  | Warn_no_list_id string
  | Log_moving string string
  | Error_moving_card string js_error
  | Log_complete nat nat

text \<open>
  The state threaded through a run: the clock read by \<open>new Date()\<close>, the cards as the
  board's server holds them, the requests, timers and console lines so far, and the two
  counters of \<open>organizeCards\<close>.
\<close>

record state =
  clock :: int
  board :: "card list"
  trace :: "event list"
  movedCount :: nat
  errorCount :: nat

definition emit :: "event \<Rightarrow> state \<Rightarrow> state" where
  "emit e s = s\<lparr>trace := trace s @ [e]\<rparr>"

definition request :: "network \<Rightarrow> event \<Rightarrow> state \<Rightarrow> state" where
  "request net e s = (emit e s)\<lparr>clock := clock s + int (latency net)\<rparr>"

text \<open>The board after the server has accepted \<open>PUT /1/cards/{cardId}\<close> with \<open>idList\<close>.\<close>

definition server_move :: "string \<Rightarrow> string \<Rightarrow> card list \<Rightarrow> card list" where
  "server_move cardId listId cards =
     map (\<lambda>c. if card_id c = cardId then c\<lparr>card_idList := listId\<rparr> else c) cards"

text \<open>The body of a \<open>try\<close> block: the response is checked, a failure is thrown.\<close>

definition checked :: "fetch_outcome \<Rightarrow> 'a \<Rightarrow> js_error + 'a" where
  "checked outcome body =
     (case outcome of
        Rejected \<Rightarrow> Inl FetchFailed
      | Responded status \<Rightarrow> if \<not> response_ok status then Inl (HttpError status) else Inr body)"

definition getAllCards :: "network \<Rightarrow> state \<Rightarrow> card list \<times> state" where
  "getAllCards net s =
     (let s1 = request net Get_cards s
      in case checked (cards_outcome net) (board s1) of
           Inr cards \<Rightarrow> (cards, s1)
         | Inl error \<Rightarrow> ([], emit (Error_fetching_cards error) s1))"

text \<open>
  \<open>moveCard\<close> returns the parsed response (here the id of the card, a truthy value) or
  \<open>null\<close> (\<open>None\<close>). The server moves the card exactly when it answers with an ok status.
\<close>

definition moveCard :: "network \<Rightarrow> string \<Rightarrow> string \<Rightarrow> state \<Rightarrow> string option \<times> state" where
  "moveCard net cardId listId s =
     (let s1 = request net (Put_card cardId listId) s
      in case checked (move_outcome net cardId listId) cardId of
           Inr json \<Rightarrow> (Some json, s1\<lparr>board := server_move cardId listId (board s1)\<rparr>)
         | Inl error \<Rightarrow> (None, emit (Error_moving_card cardId error) s1))"

definition setTimeout :: "network \<Rightarrow> nat \<Rightarrow> state \<Rightarrow> state" where
  "setTimeout net delay s =
     (emit (Timeout_set delay) s)\<lparr>clock := clock s + int delay + int (timer_lag net)\<rparr>"

section \<open>The reconciler: \<open>organizeCards\<close>\<close>

text \<open>
  One iteration of the \<open>for (const card of cards)\<close> loop, for the card \<open>c\<close>. The test
  \<open>!targetListId\<close> holds for \<open>undefined\<close> and for the empty string.
\<close>

definition loop_body :: "host \<Rightarrow> network \<Rightarrow> card \<Rightarrow> state \<Rightarrow> state" where
  "loop_body h net c s =
     (let targetListName = determineTargetList (time_zone h) (clock s) (card_due c);
          targetListId = LIST_MAPPING (process_env h) targetListName
      in case targetListId of
           None \<Rightarrow> emit (Warn_no_list_id targetListName) s
         | Some listId \<Rightarrow>
             if listId = [] then emit (Warn_no_list_id targetListName) s
             else if card_idList c \<noteq> listId then
               (let s1 = emit (Log_moving (card_name c) targetListName) s;
                    (result, s2) = moveCard net (card_id c) listId s1;
                    s3 = (if result \<noteq> None then s2\<lparr>movedCount := movedCount s2 + 1\<rparr>
                          else s2\<lparr>errorCount := errorCount s2 + 1\<rparr>)
                in setTimeout net 100 s3)
             else s)"

definition organizeCards :: "host \<Rightarrow> network \<Rightarrow> state \<Rightarrow> state" where
  "organizeCards h net s =
     (let s1 = emit Log_starting s;
          (cards, s2) = getAllCards net s1;
          s3 = emit (Log_found (length cards)) s2;
          s4 = s3\<lparr>movedCount := 0, errorCount := 0\<rparr>;
          s5 = fold (loop_body h net) cards s4
      in emit (Log_complete (movedCount s5) (errorCount s5)) s5)"

text \<open>
  The handler of \<open>GET /organize\<close>. No path of \<open>organizeCards\<close> throws (both requests
  are made inside \<open>try\<close> blocks whose \<open>catch\<close> returns a value), so the handler's own
  \<open>catch\<close>, which would answer with status 500, has no path leading to it.
\<close>

datatype reply = Json_200 bool string | Json_500 bool string

definition organize_route :: "host \<Rightarrow> network \<Rightarrow> state \<Rightarrow> reply \<times> state" where
  "organize_route h net s =
     (let s1 = organizeCards h net s
      in (Json_200 True ''Cards organized successfully'', s1))"

section \<open>The classifier as the specification words it\<close>

text \<open>
  The definitions of this section follow the words of the specification (section 4.1),
  not the source: the six buckets; the instant at which the local clock shows a time
  of day on a day; the start (00:00:00.000) and the end (23:59:59.999) of the local
  day of an instant; the Monday-start week, from Monday 00:00:00.000 to Sunday
  23:59:59.999, in which a Sunday is the seventh day; the five ordered interval rules,
  with tomorrow the local day after today and the next week the week of the instant
  seven times 24 hours after \<open>now\<close>; and \<open>classify\<close>, which returns the bucket of the
  first rule that matches and \<open>Later\<close> otherwise.
\<close>

datatype bucket = Overdue | Today | Tomorrow | ThisWeek | NextWeek | Later

fun listName :: "bucket \<Rightarrow> string" where
  "listName Overdue = ''Overdue''"
| "listName Today = ''Today''"
| "listName Tomorrow = ''Tomorrow''"
| "listName ThisWeek = ''This week''"
| "listName NextWeek = ''Next week''"
| "listName Later = ''Later''"









section \<open>Auxiliary notions for the proofs\<close>

text \<open>
  A zone is regular when the local days follow one another without a transition at
  their borders: the local clock reads a midnight or a later time exactly from the
  instant of that midnight on; every midnight and every last millisecond of a day is
  shown by the clock, at the instant it stands for; the last millisecond of a day is
  followed by the midnight of the next; and a local time, also one that the clock
  skips, stands for an instant of the same local day. Zones with a constant offset are
  regular, and so are zones whose clocks change between 01:00 and 03:00.
\<close>

definition zone_ok :: "zone \<Rightarrow> bool" where
  "zone_ok z =
     ((\<forall>k t. (UTC z (k * msPerDay) \<le> t) = (k * msPerDay \<le> LocalTime z t))
      \<and> (\<forall>k. LocalTime z (UTC z (k * msPerDay)) = k * msPerDay)
      \<and> (\<forall>k. LocalTime z (UTC z (k * msPerDay + (msPerDay - 1))) = k * msPerDay + (msPerDay - 1))
      \<and> (\<forall>k. UTC z (k * msPerDay + (msPerDay - 1)) + 1 = UTC z ((k + 1) * msPerDay))
      \<and> (\<forall>t. Day (LocalTime z (UTC z t)) = Day t))"

text \<open>The day number of the Monday on or before day \<open>D\<close>.\<close>

definition monday_day :: "int \<Rightarrow> int" where
  "monday_day D = D - (if (D + 4) mod 7 = 0 then 6 else (D + 4) mod 7 - 1)"

text \<open>Whether the request for the cards fails, and the error that is then caught.\<close>

definition listing_fails :: "network \<Rightarrow> bool" where
  "listing_fails net =
     (case cards_outcome net of Rejected \<Rightarrow> True | Responded status \<Rightarrow> \<not> response_ok status)"

definition listing_error :: "network \<Rightarrow> js_error" where
  "listing_error net =
     (case cards_outcome net of Rejected \<Rightarrow> FetchFailed | Responded status \<Rightarrow> HttpError status)"

text \<open>Whether the request that moves card \<open>cardId\<close> to list \<open>listId\<close> succeeds.\<close>

definition move_succeeds :: "network \<Rightarrow> string \<Rightarrow> string \<Rightarrow> bool" where
  "move_succeeds net cardId listId =
     (case move_outcome net cardId listId of
        Rejected \<Rightarrow> False
      | Responded status \<Rightarrow> response_ok status)"

definition move_error :: "network \<Rightarrow> string \<Rightarrow> string \<Rightarrow> js_error" where
  "move_error net cardId listId =
     (case move_outcome net cardId listId of
        Rejected \<Rightarrow> FetchFailed
      | Responded status \<Rightarrow> HttpError status)"

text \<open>The same network with every move request answered by status 200.\<close>

definition all_moves_succeed :: "network \<Rightarrow> network" where
  "all_moves_succeed net = net\<lparr>move_outcome := \<lambda>cardId listId. Responded 200\<rparr>"

text \<open>
  The list id that the mapping holds for the list name computed for card \<open>c\<close> at
  instant \<open>t\<close>, and whether the loop then asks for a move: the id is truthy and differs
  from the list the card is in.
\<close>

definition target_at :: "host \<Rightarrow> int \<Rightarrow> card \<Rightarrow> string option" where
  "target_at h t c =
     LIST_MAPPING (process_env h) (determineTargetList (time_zone h) t (card_due c))"

definition needs_move :: "host \<Rightarrow> int \<Rightarrow> card \<Rightarrow> bool" where
  "needs_move h t c =
     (case target_at h t c of
        None \<Rightarrow> False
      | Some listId \<Rightarrow> listId \<noteq> [] \<and> card_idList c \<noteq> listId)"

text \<open>The events that a computation from \<open>s\<close> to \<open>s'\<close> has added to the trace.\<close>

definition run_events :: "state \<Rightarrow> state \<Rightarrow> event list" where
  "run_events s s' = drop (length (trace s)) (trace s')"

text \<open>The move requests among some events, in order, as pairs of card id and list id.\<close>

fun put_of :: "event \<Rightarrow> (string \<times> string) list" where
  "put_of (Put_card cardId listId) = [(cardId, listId)]"
| "put_of e = []"

definition put_requests :: "event list \<Rightarrow> (string \<times> string) list" where
  "put_requests evs = concat (map put_of evs)"

fun timeout_of :: "event \<Rightarrow> nat list" where
  "timeout_of (Timeout_set delay) = [delay]"
| "timeout_of e = []"

definition timeouts :: "event list \<Rightarrow> nat list" where
  "timeouts evs = concat (map timeout_of evs)"

fun warning_of :: "event \<Rightarrow> string list" where
  "warning_of (Warn_no_list_id name) = [name]"
| "warning_of e = []"

definition warnings :: "event list \<Rightarrow> string list" where
  "warnings evs = concat (map warning_of evs)"

text \<open>
  The move request, if any, that one iteration issues for card \<open>c\<close> when the clock
  reads \<open>t\<close>; the time an iteration with a request takes; and the requests of a whole
  loop over \<open>cs\<close> that starts at \<open>t\<close>, each request delaying the cards after it.
\<close>

definition attempt :: "host \<Rightarrow> int \<Rightarrow> card \<Rightarrow> (string \<times> string) list" where
  "attempt h t c =
     (case target_at h t c of
        None \<Rightarrow> []
      | Some listId \<Rightarrow> if listId \<noteq> [] \<and> card_idList c \<noteq> listId then [(card_id c, listId)] else [])"

definition attempt_time :: "network \<Rightarrow> int" where
  "attempt_time net = int (latency net) + 100 + int (timer_lag net)"

fun plan :: "host \<Rightarrow> int \<Rightarrow> int \<Rightarrow> card list \<Rightarrow> (string \<times> string) list" where
  "plan h dt t [] = []"
| "plan h dt t (c # cs) = attempt h t c @ plan h dt (if attempt h t c = [] then t else t + dt) cs"

text \<open>
  The cards that \<open>getAllCards\<close> returns, and the state in which the loop of
  \<open>organizeCards\<close> starts.
\<close>

definition fetched_cards :: "network \<Rightarrow> state \<Rightarrow> card list" where
  "fetched_cards net s = (if listing_fails net then [] else board s)"

definition loop_start :: "network \<Rightarrow> state \<Rightarrow> state" where
  "loop_start net s =
     s\<lparr>clock := clock s + int (latency net),
       trace := trace s @ [Log_starting, Get_cards]
                  @ (if listing_fails net then [Error_fetching_cards (listing_error net)] else [])
                  @ [Log_found (length (fetched_cards net s))],
       movedCount := 0, errorCount := 0\<rparr>"

text \<open>
  Card \<open>c\<close> after the move that the loop asks for at instant \<open>t\<close> has succeeded (the
  card itself when no move is asked for).
\<close>

definition settle :: "host \<Rightarrow> int \<Rightarrow> card \<Rightarrow> card" where
  "settle h t c =
     (case target_at h t c of
        None \<Rightarrow> c
      | Some listId \<Rightarrow> if listId = [] then c else c\<lparr>card_idList := listId\<rparr>)"

section \<open>Concrete inputs\<close>

text \<open>
  Coordinated universal time, and the zone of New York in 2026: five hours behind UTC,
  with daylight-saving time from 8 March, 07:00 UTC, to 1 November, 06:00 UTC.
\<close>

definition utc_zone :: zone where
  "utc_zone = \<lparr>std_offset = 0, dst_spans = []\<rparr>"

definition new_york_2026 :: zone where
  "new_york_2026 = \<lparr>std_offset = - 18000000, dst_spans = [(1772953200000, 1793512800000)]\<rparr>"

text \<open>
  Sunday 7 January 2024, 23:59:59.999 UTC. Sunday 1 March 2026, 23:30 in New York, a
  week before the clocks are set forward, with the Monday after it at 08:00 and the
  Wednesday after it at 12:00. Monday 26 October 2026, 00:30 in New York, in the week
  at whose end the clocks are set back. Wednesday 3 January 2024, 10:00 UTC.
\<close>

definition sunday_night :: int where
  "sunday_night = 1704671999999"

definition sunday_before_spring :: int where
  "sunday_before_spring = 1772425800000"



definition monday_before_fall :: int where
  "monday_before_fall = 1792989000000"

text \<open>
  A host with all six lists configured and one without \<open>LATER_LIST_ID\<close>; cards without a
  due date, four of them in a list \<open>L0\<close> outside the mapping and one already in the list
  of \<open>Later\<close>; networks that answer every request, that fail the moves of cards \<open>B\<close>
  and \<open>D\<close>, that fail the listing, and that fail every move.
\<close>

definition host_all :: host where
  "host_all = \<lparr>time_zone = utc_zone,
     process_env = map_of [(''OVERDUE_LIST_ID'', ''L1''), (''TODAY_LIST_ID'', ''L2''),
       (''TOMORROW_LIST_ID'', ''L3''), (''THIS_WEEK_LIST_ID'', ''L4''),
       (''NEXT_WEEK_LIST_ID'', ''L5''), (''LATER_LIST_ID'', ''L6'')]\<rparr>"

definition host_no_later :: host where
  "host_no_later = \<lparr>time_zone = utc_zone,
     process_env = map_of [(''OVERDUE_LIST_ID'', ''L1''), (''TODAY_LIST_ID'', ''L2''),
       (''TOMORROW_LIST_ID'', ''L3''), (''THIS_WEEK_LIST_ID'', ''L4''),
       (''NEXT_WEEK_LIST_ID'', ''L5'')]\<rparr>"

definition card_A :: card where
  "card_A = \<lparr>card_id = ''A'', card_name = ''a'', card_due = None, card_idList = ''L0''\<rparr>"
definition card_B :: card where
  "card_B = \<lparr>card_id = ''B'', card_name = ''b'', card_due = None, card_idList = ''L0''\<rparr>"
definition card_C :: card where
  "card_C = \<lparr>card_id = ''C'', card_name = ''c'', card_due = None, card_idList = ''L0''\<rparr>"
definition card_D :: card where
  "card_D = \<lparr>card_id = ''D'', card_name = ''d'', card_due = None, card_idList = ''L0''\<rparr>"
definition card_E :: card where
  "card_E = \<lparr>card_id = ''E'', card_name = ''e'', card_due = None, card_idList = ''L6''\<rparr>"

definition net_up :: network where
  "net_up = \<lparr>cards_outcome = Responded 200, move_outcome = (\<lambda>cardId listId. Responded 200),
     latency = 40, timer_lag = 3\<rparr>"

definition net_B_D_fail :: network where
  "net_B_D_fail = \<lparr>cards_outcome = Responded 200,
     move_outcome = (\<lambda>cardId listId. if cardId = ''B'' \<or> cardId = ''D'' then Responded 500
                                      else Responded 200),
     latency = 40, timer_lag = 3\<rparr>"

definition net_down :: network where
  "net_down = \<lparr>cards_outcome = Rejected, move_outcome = (\<lambda>cardId listId. Responded 200),
     latency = 40, timer_lag = 3\<rparr>"

definition net_moves_fail :: network where
  "net_moves_fail = \<lparr>cards_outcome = Responded 200, move_outcome = (\<lambda>cardId listId. Rejected),
     latency = 40, timer_lag = 3\<rparr>"

definition board_of :: "card list \<Rightarrow> state" where
  "board_of cards = \<lparr>clock = sunday_night, board = cards, trace = [], movedCount = 0, errorCount = 0\<rparr>"

text \<open>A card that was due on 1 January 1970, in the list \<open>L0\<close>.\<close>

definition card_O :: card where
  "card_O = \<lparr>card_id = ''O'', card_name = ''o'', card_due = Some 0, card_idList = ''L0''\<rparr>"

section \<open>The model on known dates\<close>

text \<open>
  Days of the month around the turn of a year and a leap day (29 February 2024 is day
  19782); \<open>setDate\<close> rolling over the ends of a month; the classifier on Wednesday
  3 January 2024, 10:00 UTC; and local time in New York: the offsets before, within and
  after daylight-saving time, 02:30 on 8 March 2026, which the clock skips and which
  stands for 03:30 daylight time, and 01:30 on 1 November 2026, which the clock shows
  twice and which stands for the earlier of the two instants.
\<close>

lemma DateFromTime_examples:
  "DateFromTime 0 = 1"
  "DateFromTime (- 1) = 31"
  "DateFromTime (58 * msPerDay) = 28"
  "DateFromTime (59 * msPerDay) = 1"
  "DateFromTime (19782 * msPerDay + 43200000) = 29"
  "DateFromTime (19783 * msPerDay) = 1"
  "DateFromTime sunday_night = 7"
  by code_simp+

lemma setDate_rolls_over:
  "setDate utc_zone (19782 * msPerDay + 43200000) 0 = 19753 * msPerDay + 43200000"
  "setDate utc_zone (19782 * msPerDay + 43200000) 30 = 19783 * msPerDay + 43200000"
  by code_simp+

lemma wednesday_scenario:
  "getDay utc_zone (19725 * msPerDay + 10 * 3600000) = 3"
  "determineTargetList utc_zone (19725 * msPerDay + 10 * 3600000)
     (Some (19725 * msPerDay + 23 * 3600000)) = ''Today''"
  "determineTargetList utc_zone (19725 * msPerDay + 10 * 3600000)
     (Some (19726 * msPerDay + 8 * 3600000)) = ''Tomorrow''"
  "determineTargetList utc_zone (19725 * msPerDay + 10 * 3600000)
     (Some (19728 * msPerDay)) = ''This week''"
  "determineTargetList utc_zone (19725 * msPerDay + 10 * 3600000)
     (Some (19730 * msPerDay)) = ''Next week''"
  "determineTargetList utc_zone (19725 * msPerDay + 10 * 3600000)
     (Some (19745 * msPerDay)) = ''Later''"
  "determineTargetList utc_zone (19725 * msPerDay + 10 * 3600000)
     (Some (19724 * msPerDay + 10 * 3600000)) = ''Overdue''"
  by code_simp+

lemma new_york_examples:
  "LocalTime new_york_2026 sunday_before_spring = 20513 * msPerDay + 23 * msPerHour + 1800000"
  "getDay new_york_2026 sunday_before_spring = 0"
  "LocalTime new_york_2026 (getTime sunday_before_spring + 7 * 24 * 60 * 60 * 1000)
     = 20521 * msPerDay + 1800000"
  "LocalTime new_york_2026 monday_before_fall = 20752 * msPerDay + 1800000"
  "getDay new_york_2026 monday_before_fall = 1"
  "LocalTime new_york_2026 (getTime monday_before_fall + 7 * 24 * 60 * 60 * 1000)
     = 20758 * msPerDay + 23 * msPerHour + 1800000"
  "UTC new_york_2026 (20520 * msPerDay + 2 * msPerHour + 1800000)
     = 20520 * msPerDay + 7 * msPerHour + 1800000"
  "LocalTime new_york_2026 (UTC new_york_2026 (20520 * msPerDay + 2 * msPerHour + 1800000))
     = 20520 * msPerDay + 3 * msPerHour + 1800000"
  "UTC new_york_2026 (20758 * msPerDay + msPerHour + 1800000)
     = 20758 * msPerDay + 5 * msPerHour + 1800000"
  by code_simp+

text \<open>
  In New York the day on which the clocks are set forward has 23 hours and the day on
  which they are set back has 25. On Sunday 8 March 2026 at 00:30, Monday 9 March,
  00:30, is \<open>Tomorrow\<close>, although it is only 23 hours away.
\<close>

lemma new_york_long_and_short_days:
  "getEndOfDay new_york_2026 (20520 * msPerDay + 12 * msPerHour)
     - getStartOfDay new_york_2026 (20520 * msPerDay + 12 * msPerHour) = 23 * msPerHour - 1"
  "getEndOfDay new_york_2026 (20758 * msPerDay + 12 * msPerHour)
     - getStartOfDay new_york_2026 (20758 * msPerDay + 12 * msPerHour) = 25 * msPerHour - 1"
  "determineTargetList new_york_2026 (20520 * msPerDay + 5 * msPerHour + 1800000)
     (Some (20521 * msPerDay + 4 * msPerHour + 1800000)) = ''Tomorrow''"
  by code_simp+

section \<open>Day arithmetic\<close>


lemma day_split: "Day t * msPerDay + TimeWithinDay t = t"
  by (simp add: Day_def TimeWithinDay_def)

lemma Day_of_midnight: "Day (k * msPerDay) = k"
  by (simp add: Day_def msPerDay_def)


lemma Day_bounds: "Day t * msPerDay \<le> t \<and> t < (Day t + 1) * msPerDay"
proof -
  have "0 \<le> t mod msPerDay \<and> t mod msPerDay < msPerDay"
    by (simp add: msPerDay_def)
  then show ?thesis
    using day_split [of t] by (simp add: TimeWithinDay_def algebra_simps)
qed

lemma midnight_le_iff: "(k * msPerDay \<le> t) = (k \<le> Day t)"
proof
  assume "k * msPerDay \<le> t"
  then have "Day (k * msPerDay) \<le> Day t"
    unfolding Day_def by (rule zdiv_mono1) (simp add: msPerDay_def)
  then show "k \<le> Day t"
    by (simp only: Day_of_midnight)
next
  assume "k \<le> Day t"
  then have "k * msPerDay \<le> Day t * msPerDay"
    by (simp add: msPerDay_def)
  then show "k * msPerDay \<le> t"
    using Day_bounds [of t] by linarith
qed

lemma getStartOfDay_eq: "getStartOfDay z t = UTC z (Day (LocalTime z t) * msPerDay)"
  by (simp add: getStartOfDay_def setHours_def MakeDate_def MakeTime_def)




lemma monday_day_range: "D - 6 \<le> monday_day D \<and> monday_day D \<le> D"
proof -
  define w where "w = (D + 4) mod 7"
  have "0 \<le> w \<and> w < 7"
    unfolding w_def by simp
  then show ?thesis
    unfolding monday_day_def w_def [symmetric] by auto
qed

lemma monday_day_is_monday: "(monday_day D + 4) mod 7 = 1"
proof -
  define w where "w = (D + 4) mod 7"
  define q where "q = (D + 4) div 7"
  have Dq: "D + 4 = 7 * q + w"
    unfolding q_def w_def by simp
  have "monday_day D + 4 = 7 * (q + (if w = 0 then - 1 else 0)) + 1"
    using Dq unfolding monday_day_def w_def [symmetric] by auto
  then show ?thesis
    by (simp only: mod_mult_self4) simp
qed

lemma monday_day_unique:
  assumes "(M + 4) mod 7 = 1" and "M \<le> D" and "D \<le> M + 6"
  shows "monday_day D = M"
proof -
  define j where "j = D - M"
  have j: "0 \<le> j \<and> j \<le> 6"
    using assms by (simp add: j_def)
  have "D + 4 = (M + 4) + j"
    by (simp add: j_def)
  then have "(D + 4) mod 7 = ((M + 4) mod 7 + j) mod 7"
    by (simp only: mod_add_left_eq)
  then have w: "(D + 4) mod 7 = (1 + j) mod 7"
    by (simp only: assms(1))
  have "(1 + j) mod 7 = (if j = 6 then 0 else 1 + j)"
    using j by auto
  then have "(D + 4) mod 7 = (if j = 6 then 0 else 1 + j)"
    using w by simp
  then show ?thesis
    unfolding monday_day_def using j by (auto simp: j_def)
qed

lemma monday_day_mono: "D \<le> D' \<Longrightarrow> monday_day D \<le> monday_day D'"
proof (rule ccontr)
  assume le: "D \<le> D'" and "\<not> monday_day D \<le> monday_day D'"
  then have lt: "monday_day D' < monday_day D"
    by simp
  have r: "monday_day D \<le> D" "D' \<le> monday_day D' + 6"
    using monday_day_range [of D] monday_day_range [of D'] by simp_all
  have "monday_day D' \<le> D" "D \<le> monday_day D' + 6"
    using lt r le by linarith+
  then have "monday_day D = monday_day D'"
    using monday_day_is_monday [of D'] by (intro monday_day_unique)
  then show False
    using lt by simp
qed

section \<open>Local days in a regular zone\<close>

lemma zone_ok_midnight_le:
  "zone_ok z \<Longrightarrow> (UTC z (k * msPerDay) \<le> t) = (k \<le> Day (LocalTime z t))"
  by (simp add: zone_ok_def midnight_le_iff)












lemma local_day_mono:
  assumes "zone_ok z" and "s \<le> t"
  shows "Day (LocalTime z s) \<le> Day (LocalTime z t)"
proof -
  have "UTC z (Day (LocalTime z s) * msPerDay) \<le> s"
    using assms(1) by (simp add: zone_ok_midnight_le)
  then have "UTC z (Day (LocalTime z s) * msPerDay) \<le> t"
    using assms(2) by simp
  then show ?thesis
    using assms(1) by (simp add: zone_ok_midnight_le)
qed






section \<open>Regular zones\<close>

lemma constant_zone_times:
  assumes "dst_spans z = []"
  shows "LocalTime z t = t + std_offset z" and "UTC z t = t - std_offset z"
  using assms by (simp_all add: LocalTime_def UTC_def LocalTZA_def in_daylight_def)

lemma zone_ok_constant: "dst_spans z = [] \<Longrightarrow> zone_ok z"
  unfolding zone_ok_def by (simp add: constant_zone_times algebra_simps)

lemma zone_ok_utc: "zone_ok utc_zone"
  by (rule zone_ok_constant) (simp add: utc_zone_def)
















section \<open>The loop, one card at a time\<close>

lemmas example_defs = host_all_def host_no_later_def card_A_def card_B_def card_C_def card_D_def
  card_E_def card_O_def net_up_def net_B_D_fail_def net_down_def net_moves_fail_def board_of_def

lemmas run_defs = organizeCards_def getAllCards_def moveCard_def loop_body_def checked_def
  request_def emit_def setTimeout_def response_ok_def LIST_MAPPING_def Let_def

lemma put_requests_append: "put_requests (xs @ ys) = put_requests xs @ put_requests ys"
  by (simp add: put_requests_def)

lemma checked_move:
  "checked (move_outcome net cardId listId) body =
     (if move_succeeds net cardId listId then Inr body else Inl (move_error net cardId listId))"
  by (simp add: checked_def move_succeeds_def move_error_def split: fetch_outcome.split)

lemma checked_listing:
  "checked (cards_outcome net) body =
     (if listing_fails net then Inl (listing_error net) else Inr body)"
  by (simp add: checked_def listing_fails_def listing_error_def split: fetch_outcome.split)

lemma loop_body_no_target:
  "target_at h (clock s) c = None \<Longrightarrow>
   loop_body h net c s
     = emit (Warn_no_list_id (determineTargetList (time_zone h) (clock s) (card_due c))) s"
  by (simp add: loop_body_def target_at_def Let_def)

lemma loop_body_empty_target:
  "target_at h (clock s) c = Some [] \<Longrightarrow>
   loop_body h net c s
     = emit (Warn_no_list_id (determineTargetList (time_zone h) (clock s) (card_due c))) s"
  by (simp add: loop_body_def target_at_def Let_def)

lemma loop_body_in_place:
  "target_at h (clock s) c = Some l \<Longrightarrow> l \<noteq> [] \<Longrightarrow> card_idList c = l \<Longrightarrow>
   loop_body h net c s = s"
  by (simp add: loop_body_def target_at_def Let_def)

lemma loop_body_moved:
  "target_at h (clock s) c = Some l \<Longrightarrow> l \<noteq> [] \<Longrightarrow> card_idList c \<noteq> l \<Longrightarrow>
   move_succeeds net (card_id c) l \<Longrightarrow>
   loop_body h net c s
     = s\<lparr>clock := clock s + int (latency net) + 100 + int (timer_lag net),
          board := server_move (card_id c) l (board s),
          trace := trace s @ [Log_moving (card_name c)
                                (determineTargetList (time_zone h) (clock s) (card_due c)),
                              Put_card (card_id c) l, Timeout_set 100],
          movedCount := movedCount s + 1\<rparr>"
  by (simp add: loop_body_def target_at_def Let_def moveCard_def checked_move request_def
      emit_def setTimeout_def)

lemma loop_body_failed:
  "target_at h (clock s) c = Some l \<Longrightarrow> l \<noteq> [] \<Longrightarrow> card_idList c \<noteq> l \<Longrightarrow>
   \<not> move_succeeds net (card_id c) l \<Longrightarrow>
   loop_body h net c s
     = s\<lparr>clock := clock s + int (latency net) + 100 + int (timer_lag net),
          trace := trace s @ [Log_moving (card_name c)
                                (determineTargetList (time_zone h) (clock s) (card_due c)),
                              Put_card (card_id c) l,
                              Error_moving_card (card_id c) (move_error net (card_id c) l),
                              Timeout_set 100],
          errorCount := errorCount s + 1\<rparr>"
  by (simp add: loop_body_def target_at_def Let_def moveCard_def checked_move request_def
      emit_def setTimeout_def)

lemma needs_move_attempt: "needs_move h t c \<longleftrightarrow> attempt h t c \<noteq> []"
  by (simp add: needs_move_def attempt_def split: option.split)

lemma organizeCards_unfold:
  "organizeCards h net s =
     (let s5 = fold (loop_body h net) (fetched_cards net s) (loop_start net s)
      in emit (Log_complete (movedCount s5) (errorCount s5)) s5)"
  by (simp add: organizeCards_def getAllCards_def checked_listing request_def emit_def
      fetched_cards_def loop_start_def Let_def)

text \<open>The four ways in which an iteration ends.\<close>

lemma loop_body_cases [case_names skipped in_place moved failed]:
  obtains
    (skipped) "attempt h (clock s) c = []"
      "loop_body h net c s
         = emit (Warn_no_list_id (determineTargetList (time_zone h) (clock s) (card_due c))) s"
  | (in_place) "attempt h (clock s) c = []" "loop_body h net c s = s"
  | (moved) l where "attempt h (clock s) c = [(card_id c, l)]" "move_succeeds net (card_id c) l"
      "loop_body h net c s
         = s\<lparr>clock := clock s + int (latency net) + 100 + int (timer_lag net),
              board := server_move (card_id c) l (board s),
              trace := trace s @ [Log_moving (card_name c)
                                    (determineTargetList (time_zone h) (clock s) (card_due c)),
                                  Put_card (card_id c) l, Timeout_set 100],
              movedCount := movedCount s + 1\<rparr>"
  | (failed) l where "attempt h (clock s) c = [(card_id c, l)]"
      "\<not> move_succeeds net (card_id c) l"
      "loop_body h net c s
         = s\<lparr>clock := clock s + int (latency net) + 100 + int (timer_lag net),
              trace := trace s @ [Log_moving (card_name c)
                                    (determineTargetList (time_zone h) (clock s) (card_due c)),
                                  Put_card (card_id c) l,
                                  Error_moving_card (card_id c) (move_error net (card_id c) l),
                                  Timeout_set 100],
              errorCount := errorCount s + 1\<rparr>"
proof (cases "target_at h (clock s) c")
  case None
  then show ?thesis
    using skipped by (simp add: loop_body_no_target attempt_def)
next
  case (Some l)
  show ?thesis
  proof (cases "l = []")
    case True
    then show ?thesis
      using Some skipped by (simp add: loop_body_empty_target attempt_def)
  next
    case ne: False
    show ?thesis
    proof (cases "card_idList c = l")
      case True
      then show ?thesis
        using Some ne in_place by (simp add: loop_body_in_place attempt_def)
    next
      case False
      then have a: "attempt h (clock s) c = [(card_id c, l)]"
        using Some ne by (simp add: attempt_def)
      show ?thesis
      proof (cases "move_succeeds net (card_id c) l")
        case True
        then show ?thesis
          using moved [OF a] loop_body_moved [OF Some ne False] by simp
      next
        case fails: False
        then show ?thesis
          using failed [OF a] loop_body_failed [OF Some ne False] by simp
      qed
    qed
  qed
qed

lemma loop_body_clock:
  "clock (loop_body h net c s)
     = (if attempt h (clock s) c = [] then clock s else clock s + attempt_time net)"
  by (cases rule: loop_body_cases [of h s c net]) (simp_all add: emit_def attempt_time_def)

lemma loop_body_puts:
  "put_requests (trace (loop_body h net c s)) = put_requests (trace s) @ attempt h (clock s) c"
  by (cases rule: loop_body_cases [of h s c net]) (simp_all add: emit_def put_requests_def)

lemma loop_body_errorCount:
  "errorCount (loop_body h net c s)
     = errorCount s + length (filter (\<lambda>p. \<not> move_succeeds net (fst p) (snd p))
                               (attempt h (clock s) c))"
  by (cases rule: loop_body_cases [of h s c net]) (simp_all add: emit_def)

lemma loop_body_movedCount:
  "movedCount (loop_body h net c s)
     = movedCount s + length (filter (\<lambda>p. move_succeeds net (fst p) (snd p))
                               (attempt h (clock s) c))"
  by (cases rule: loop_body_cases [of h s c net]) (simp_all add: emit_def)

lemma loop_body_trace: "\<exists>evs. trace (loop_body h net c s) = trace s @ evs"
  by (cases rule: loop_body_cases [of h s c net]) (simp_all add: emit_def)

section \<open>The loop and the run as a whole\<close>

lemma loop_clock_puts:
  "put_requests (trace (fold (loop_body h net) cs s))
     = put_requests (trace s) @ plan h (attempt_time net) (clock s) cs"
proof (induction cs arbitrary: s)
  case Nil
  show ?case by simp
next
  case (Cons c cs)
  show ?case
    by (simp add: Cons.IH loop_body_puts loop_body_clock)
qed

lemma loop_errorCount:
  "errorCount (fold (loop_body h net) cs s)
     = errorCount s + length (filter (\<lambda>p. \<not> move_succeeds net (fst p) (snd p))
                               (plan h (attempt_time net) (clock s) cs))"
proof (induction cs arbitrary: s)
  case Nil
  show ?case by simp
next
  case (Cons c cs)
  show ?case
    by (simp add: Cons.IH loop_body_errorCount loop_body_clock)
qed

lemma loop_movedCount:
  "movedCount (fold (loop_body h net) cs s)
     = movedCount s + length (filter (\<lambda>p. move_succeeds net (fst p) (snd p))
                               (plan h (attempt_time net) (clock s) cs))"
proof (induction cs arbitrary: s)
  case Nil
  show ?case by simp
next
  case (Cons c cs)
  show ?case
    by (simp add: Cons.IH loop_body_movedCount loop_body_clock)
qed

lemma loop_trace: "\<exists>evs. trace (fold (loop_body h net) cs s) = trace s @ evs"
proof (induction cs arbitrary: s)
  case Nil
  show ?case by simp
next
  case (Cons c cs)
  obtain e1 where e1: "trace (loop_body h net c s) = trace s @ e1"
    using loop_body_trace by blast
  obtain e2 where "trace (fold (loop_body h net) cs (loop_body h net c s))
      = trace (loop_body h net c s) @ e2"
    using Cons.IH by blast
  then show ?case
    by (simp add: e1)
qed

lemma organizeCards_trace:
  "\<exists>evs. trace (organizeCards h net s) = trace s @ evs
      \<and> put_requests evs = plan h (attempt_time net) (clock s + int (latency net)) (fetched_cards net s)"
proof -
  define s4 where "s4 = loop_start net s"
  define cs where "cs = fetched_cards net s"
  obtain e0 where e0: "trace s4 = trace s @ e0" and p0: "put_requests e0 = []"
    by (simp add: s4_def loop_start_def put_requests_def)
  obtain e1 where e1: "trace (fold (loop_body h net) cs s4) = trace s4 @ e1"
    using loop_trace by blast
  have "put_requests (trace s4 @ e1) = put_requests (trace s4) @ plan h (attempt_time net) (clock s4) cs"
    using loop_clock_puts [of h net cs s4] by (simp add: e1)
  then have p1: "put_requests e1 = plan h (attempt_time net) (clock s4) cs"
    by (simp add: put_requests_append)
  have c4: "clock s4 = clock s + int (latency net)"
    by (simp add: s4_def loop_start_def)
  have "trace (organizeCards h net s)
      = trace s @ (e0 @ e1 @ [Log_complete (movedCount (fold (loop_body h net) cs s4))
                                (errorCount (fold (loop_body h net) cs s4))])"
    by (simp add: organizeCards_unfold Let_def emit_def e0 e1 s4_def [symmetric] cs_def [symmetric])
  moreover have "put_requests (e0 @ e1 @ [Log_complete (movedCount (fold (loop_body h net) cs s4))
                                (errorCount (fold (loop_body h net) cs s4))])
      = plan h (attempt_time net) (clock s + int (latency net)) cs"
    by (simp add: put_requests_append p0 p1 c4) (simp add: put_requests_def)
  ultimately show ?thesis
    unfolding cs_def by blast
qed

lemma organizeCards_puts:
  "put_requests (run_events s (organizeCards h net s))
     = plan h (attempt_time net) (clock s + int (latency net)) (fetched_cards net s)"
  using organizeCards_trace [of h net s] by (auto simp: run_events_def)

lemma organizeCards_errorCount:
  "errorCount (organizeCards h net s)
     = length (filter (\<lambda>p. \<not> move_succeeds net (fst p) (snd p))
         (plan h (attempt_time net) (clock s + int (latency net)) (fetched_cards net s)))"
  by (simp add: organizeCards_unfold Let_def emit_def loop_errorCount) (simp add: loop_start_def)

lemma organizeCards_movedCount:
  "movedCount (organizeCards h net s)
     = length (filter (\<lambda>p. move_succeeds net (fst p) (snd p))
         (plan h (attempt_time net) (clock s + int (latency net)) (fetched_cards net s)))"
  by (simp add: organizeCards_unfold Let_def emit_def loop_movedCount) (simp add: loop_start_def)

lemma organizeCards_last:
  "last (trace (organizeCards h net s))
     = Log_complete (movedCount (organizeCards h net s)) (errorCount (organizeCards h net s))"
  by (simp add: organizeCards_unfold Let_def emit_def)

lemma all_moves_succeed_same:
  "attempt_time (all_moves_succeed net) = attempt_time net"
  "latency (all_moves_succeed net) = latency net"
  "fetched_cards (all_moves_succeed net) s = fetched_cards net s"
  by (simp_all add: all_moves_succeed_def attempt_time_def fetched_cards_def listing_fails_def)

lemma plan_all_needed:
  "(\<forall>c \<in> set cs. \<forall>t. needs_move h t c) \<Longrightarrow> map fst (plan h dt t cs) = map card_id cs"
proof (induction cs arbitrary: t)
  case Nil
  show ?case by simp
next
  case (Cons c cs)
  have "needs_move h t c"
    using Cons.prems by simp
  then obtain l where "attempt h t c = [(card_id c, l)]"
    by (auto simp: needs_move_def attempt_def split: option.splits)
  then show ?case
    using Cons by simp
qed

lemma no_due_needs_move:
  "card_due c = None \<Longrightarrow> card_idList c = ''L0'' \<Longrightarrow> needs_move host_all t c"
  by (simp add: needs_move_def target_at_def determineTargetList_def LIST_MAPPING_def host_all_def)

section \<open>Two runs in a row\<close>

lemma settle_id [simp]: "card_id (settle h t c) = card_id c"
  by (simp add: settle_def split: option.split)

lemma settle_due [simp]: "card_due (settle h t c) = card_due c"
  by (simp add: settle_def split: option.split)

lemma target_at_settle [simp]: "target_at h t (settle h t' c) = target_at h t c"
  by (simp add: target_at_def)

lemma attempt_settle: "attempt h t (settle h t c) = []"
  by (simp add: attempt_def) (simp add: settle_def split: option.split)

lemma settle_no_attempt: "attempt h t c = [] \<Longrightarrow> settle h t c = c"
  by (auto simp: attempt_def settle_def split: option.splits if_splits)

lemma settle_attempt: "attempt h t c = [(i, l)] \<Longrightarrow> settle h t c = c\<lparr>card_idList := l\<rparr>"
  by (auto simp: attempt_def settle_def split: option.splits if_splits)

lemma attempt_cong: "target_at h t c = target_at h t' c \<Longrightarrow> attempt h t c = attempt h t' c"
  by (simp add: attempt_def)

lemma settle_cong: "target_at h t c = target_at h t' c \<Longrightarrow> settle h t c = settle h t' c"
  by (simp add: settle_def)

lemma server_move_other:
  "\<forall>x \<in> set xs. card_id x \<noteq> i \<Longrightarrow> server_move i l xs = xs"
  by (induction xs) (simp_all add: server_move_def)

lemma server_move_append:
  "server_move i l (xs @ ys) = server_move i l xs @ server_move i l ys"
  by (simp add: server_move_def)

lemma server_move_Cons:
  "server_move i l (x # xs)
     = (if card_id x = i then x\<lparr>card_idList := l\<rparr> else x) # server_move i l xs"
  by (simp add: server_move_def)

lemma loop_body_clock_mono: "clock s \<le> clock (loop_body h net c s)"
  by (simp add: loop_body_clock attempt_time_def)

lemma loop_clock_mono: "clock s \<le> clock (fold (loop_body h net) cs s)"
proof (induction cs arbitrary: s)
  case Nil
  show ?case by simp
next
  case (Cons c cs)
  have "clock s \<le> clock (loop_body h net c s)"
    by (rule loop_body_clock_mono)
  also have "\<dots> \<le> clock (fold (loop_body h net) cs (loop_body h net c s))"
    by (rule Cons.IH)
  finally show ?case by simp
qed

lemma loop_errorCount_mono: "errorCount s \<le> errorCount (fold (loop_body h net) cs s)"
  by (simp add: loop_errorCount)

lemma organizeCards_clock:
  "clock (organizeCards h net s)
     = clock (fold (loop_body h net) (fetched_cards net s) (loop_start net s))"
  by (simp add: organizeCards_unfold Let_def emit_def)

lemma loop_start_clock: "clock (loop_start net s) = clock s + int (latency net)"
  by (simp add: loop_start_def)

lemma organizeCards_clock_mono: "clock s + int (latency net) \<le> clock (organizeCards h net s)"
  unfolding organizeCards_clock using loop_clock_mono [of "loop_start net s" h net]
  by (simp add: loop_start_clock)

lemma loop_board_settled:
  assumes "distinct (map card_id (pre @ todo))"
    and "board s = map (settle h t0) pre @ todo"
    and "errorCount (fold (loop_body h net) todo s) = errorCount s"
    and "\<forall>c \<in> set todo. \<forall>t. clock s \<le> t \<and> t \<le> clock (fold (loop_body h net) todo s)
           \<longrightarrow> target_at h t c = target_at h t0 c"
  shows "board (fold (loop_body h net) todo s) = map (settle h t0) (pre @ todo)"
  using assms
proof (induction todo arbitrary: s pre)
  case Nil
  then show ?case by simp
next
  case (Cons c cs)
  define s' where "s' = loop_body h net c s"
  define final where "final = fold (loop_body h net) cs s'"
  have final_eq: "fold (loop_body h net) (c # cs) s = final"
    by (simp add: final_def s'_def)
  have clock1: "clock s \<le> clock s'"
    unfolding s'_def by (rule loop_body_clock_mono)
  have clock2: "clock s' \<le> clock final"
    unfolding final_def by (rule loop_clock_mono)
  have err2: "errorCount s' \<le> errorCount final"
    unfolding final_def by (rule loop_errorCount_mono)
  have err_final: "errorCount final = errorCount s"
    using Cons.prems(3) by (simp only: final_eq)
  have stab: "\<forall>x \<in> set (c # cs). \<forall>t. clock s \<le> t \<and> t \<le> clock final
           \<longrightarrow> target_at h t x = target_at h t0 x"
    using Cons.prems(4) unfolding final_eq .
  have le: "clock s \<le> clock final"
    using clock1 clock2 by linarith
  have stable_c: "target_at h (clock s) c = target_at h t0 c"
    using stab le by (simp only: list.set_intros(1) order_refl simp_thms)
  have att: "attempt h (clock s) c = attempt h t0 c"
    using stable_c by (rule attempt_cong)
  have fresh: "card_id c \<notin> set (map card_id pre)" "card_id c \<notin> set (map card_id cs)"
    using Cons.prems(1) by simp_all
  have ids_pre: "\<forall>x \<in> set (map (settle h t0) pre). card_id x \<noteq> card_id c"
  proof
    fix x
    assume "x \<in> set (map (settle h t0) pre)"
    then obtain y where "y \<in> set pre" and "x = settle h t0 y"
      by auto
    then have "card_id x \<in> set (map card_id pre)"
      by simp
    then show "card_id x \<noteq> card_id c"
      using fresh(1) by metis
  qed
  have ids_cs: "\<forall>x \<in> set cs. card_id x \<noteq> card_id c"
  proof
    fix x
    assume "x \<in> set cs"
    then have "card_id x \<in> set (map card_id cs)"
      by simp
    then show "card_id x \<noteq> card_id c"
      using fresh(2) by metis
  qed
  have step: "board s' = map (settle h t0) (pre @ [c]) @ cs \<and> errorCount s' = errorCount s"
  proof (cases rule: loop_body_cases [of h s c net])
    case skipped
    then show ?thesis
      using Cons.prems(2) att by (simp add: s'_def emit_def settle_no_attempt)
  next
    case in_place
    then show ?thesis
      using Cons.prems(2) att by (simp add: s'_def settle_no_attempt)
  next
    case (moved l)
    have st: "settle h t0 c = c\<lparr>card_idList := l\<rparr>"
      using moved(1) att by (simp add: settle_attempt)
    have b: "board s' = server_move (card_id c) l (map (settle h t0) pre @ c # cs)"
      using moved(3) Cons.prems(2) by (simp add: s'_def)
    have 1: "server_move (card_id c) l (map (settle h t0) pre) = map (settle h t0) pre"
      using ids_pre by (rule server_move_other)
    have 2: "server_move (card_id c) l cs = cs"
      using ids_cs by (rule server_move_other)
    have 3: "server_move (card_id c) l (c # cs) = settle h t0 c # cs"
      by (simp add: server_move_Cons 2 st)
    have "board s' = map (settle h t0) pre @ settle h t0 c # cs"
      unfolding b server_move_append 1 3 ..
    moreover have "errorCount s' = errorCount s"
      using moved(3) by (simp add: s'_def)
    ultimately show ?thesis
      by simp
  next
    case (failed l)
    then have "errorCount s' = errorCount s + 1"
      by (simp add: s'_def)
    then show ?thesis
      using err2 err_final by simp
  qed
  have "board (fold (loop_body h net) cs s') = map (settle h t0) ((pre @ [c]) @ cs)"
  proof (rule Cons.IH)
    show "distinct (map card_id ((pre @ [c]) @ cs))"
      using Cons.prems(1) by simp
    show "board s' = map (settle h t0) (pre @ [c]) @ cs"
      using step by simp
    show "errorCount (fold (loop_body h net) cs s') = errorCount s'"
      unfolding final_def [symmetric] using step err_final by simp
    show "\<forall>c \<in> set cs. \<forall>t. clock s' \<le> t \<and> t \<le> clock (fold (loop_body h net) cs s')
           \<longrightarrow> target_at h t c = target_at h t0 c"
      unfolding final_def [symmetric]
    proof (intro ballI allI impI)
      fix x t
      assume "x \<in> set cs" and "clock s' \<le> t \<and> t \<le> clock final"
      then have "x \<in> set (c # cs)" and "clock s \<le> t \<and> t \<le> clock final"
        using clock1 by simp_all
      then show "target_at h t x = target_at h t0 x"
        using stab by blast
    qed
  qed
  then show ?case
    by (simp add: s'_def)
qed

lemma plan_settled:
  "\<forall>c \<in> set cs. target_at h t c = target_at h t0 c \<Longrightarrow>
   plan h dt t (map (settle h t0) cs) = []"
proof (induction cs)
  case Nil
  show ?case by simp
next
  case (Cons c cs)
  have eq: "target_at h t0 c = target_at h t c"
    using Cons.prems by simp
  have rest: "\<forall>c \<in> set cs. target_at h t c = target_at h t0 c"
    using Cons.prems by simp
  have "settle h t0 c = settle h t c"
    using eq by (rule settle_cong)
  then have a: "attempt h t (settle h t0 c) = []"
    by (simp only: attempt_settle)
  have ih: "plan h dt t (map (settle h t0) cs) = []"
    using rest by (rule Cons.IH)
  show ?case
    by (simp add: a ih)
qed

lemma second_run_moves_nothing:
  assumes ids: "distinct (map card_id (board s))"
    and up: "\<not> listing_fails net1"
    and ok: "errorCount (organizeCards h net1 s) = 0"
    and stable: "\<forall>c \<in> set (board s). \<forall>t.
        clock s \<le> t \<and> t \<le> clock (organizeCards h net2 (organizeCards h net1 s))
        \<longrightarrow> determineTargetList (time_zone h) t (card_due c)
              = determineTargetList (time_zone h) (clock s) (card_due c)"
  shows "plan h (attempt_time net2) (clock (organizeCards h net1 s) + int (latency net2))
           (fetched_cards net2 (organizeCards h net1 s)) = []"
proof -
  define s1 where "s1 = organizeCards h net1 s"
  define s2 where "s2 = organizeCards h net2 s1"
  define t0 where "t0 = clock s"
  define a where "a = loop_start net1 s"
  define b where "b = fold (loop_body h net1) (board s) a"
  have cards1: "fetched_cards net1 s = board s"
    using up by (simp add: fetched_cards_def)
  have s1_b: "board s1 = board b" "errorCount s1 = errorCount b" "clock s1 = clock b"
    by (simp_all add: s1_def organizeCards_unfold cards1 Let_def emit_def a_def b_def)
  have c_a: "clock a = t0 + int (latency net1)"
    by (simp add: a_def t0_def loop_start_clock)
  have c_12: "clock s1 + int (latency net2) \<le> clock s2"
    unfolding s2_def by (rule organizeCards_clock_mono)
  have st: "\<forall>c \<in> set (board s). \<forall>t. t0 \<le> t \<and> t \<le> clock s2
              \<longrightarrow> target_at h t c = target_at h t0 c"
  proof (intro ballI allI impI)
    fix c t
    assume "c \<in> set (board s)" and "t0 \<le> t \<and> t \<le> clock s2"
    then have "determineTargetList (time_zone h) t (card_due c)
                 = determineTargetList (time_zone h) (clock s) (card_due c)"
      using stable unfolding s1_def [symmetric] s2_def [symmetric] t0_def [symmetric]
      by blast
    then show "target_at h t c = target_at h t0 c"
      by (simp only: target_at_def t0_def)
  qed
  have board1: "board b = map (settle h t0) ([] @ board s)"
    unfolding b_def
  proof (rule loop_board_settled)
    show "distinct (map card_id ([] @ board s))"
      using ids by simp
    show "board a = map (settle h t0) [] @ board s"
      by (simp add: a_def loop_start_def)
    show "errorCount (fold (loop_body h net1) (board s) a) = errorCount a"
    proof -
      have "errorCount a = 0"
        by (simp add: a_def loop_start_def)
      moreover have "errorCount b = 0"
        using ok s1_b(2) by (simp add: s1_def)
      ultimately show ?thesis
        by (simp add: b_def)
    qed
    show "\<forall>c \<in> set (board s). \<forall>t. clock a \<le> t \<and> t \<le> clock (fold (loop_body h net1) (board s) a)
           \<longrightarrow> target_at h t c = target_at h t0 c"
    proof (intro ballI allI impI)
      fix c t
      assume c: "c \<in> set (board s)"
        and t: "clock a \<le> t \<and> t \<le> clock (fold (loop_body h net1) (board s) a)"
      have "t0 \<le> t"
        using t c_a by simp
      moreover have "t \<le> clock s2"
        using t c_12 s1_b(3) by (simp add: b_def)
      ultimately show "target_at h t c = target_at h t0 c"
        using st c by blast
    qed
  qed
  define t2 where "t2 = clock s1 + int (latency net2)"
  have "t0 \<le> clock b"
    using loop_clock_mono [of a h net1 "board s"] c_a by (simp add: b_def)
  then have t2_range: "t0 \<le> t2 \<and> t2 \<le> clock s2"
    using c_12 s1_b(3) by (simp add: t2_def)
  have at_t2: "\<forall>c \<in> set (board s). target_at h t2 c = target_at h t0 c"
    using st t2_range by blast
  have "plan h (attempt_time net2) t2 (fetched_cards net2 s1) = []"
  proof (cases "listing_fails net2")
    case True
    then show ?thesis
      by (simp add: fetched_cards_def)
  next
    case False
    then have "fetched_cards net2 s1 = map (settle h t0) (board s)"
      using board1 s1_b(1) by (simp add: fetched_cards_def)
    then show ?thesis
      using at_t2 by (simp only: plan_settled)
  qed
  then show ?thesis
    by (simp add: t2_def s1_def)
qed

lemma epoch_is_overdue:
  assumes "sunday_night \<le> t"
  shows "determineTargetList utc_zone t (Some 0) = ''Overdue''"
proof -
  have c: "dst_spans utc_zone = []" and o: "std_offset utc_zone = 0"
    by (simp_all add: utc_zone_def)
  have "sunday_night div msPerDay \<le> t div msPerDay"
    using assms by (rule zdiv_mono1) (simp add: msPerDay_def)
  then have "1 \<le> Day t"
    by (simp add: Day_def sunday_night_def msPerDay_def)
  then have "0 < getStartOfDay utc_zone t"
    by (simp add: getStartOfDay_eq constant_zone_times [OF c] o msPerDay_def)
  then show ?thesis
    by (simp add: determineTargetList_def Let_def)
qed

section \<open>Properties of the classifier\<close>



text \<open>C7. For every instant \<open>now\<close>, an absent due value is classified \<open>Later\<close>.\<close>

theorem absent_due_is_Later: "determineTargetList z now None = ''Later''"
  by (simp add: determineTargetList_def)







section \<open>Properties of the reconciler\<close>

text \<open>
  C1, as amended. When the request for the cards fails (the promise is rejected or
  the status is not ok), \<open>getAllCards\<close> catches the error, logs it and returns no cards:
  the run issues no move request, leaves the board as it is and completes with the
  summary \<open>Moved: 0, Errors: 0\<close>; the caller of \<open>GET /organize\<close> is answered with
  \<open>success: true\<close>. The failure is not reported as a failure of the run.
\<close>

theorem listing_failure_completes_empty:
  assumes "listing_fails net"
  shows "trace (organizeCards h net s)
           = trace s @ [Log_starting, Get_cards, Error_fetching_cards (listing_error net),
                        Log_found 0, Log_complete 0 0]
         \<and> movedCount (organizeCards h net s) = 0
         \<and> errorCount (organizeCards h net s) = 0
         \<and> board (organizeCards h net s) = board s
         \<and> put_requests (run_events s (organizeCards h net s)) = []
         \<and> fst (organize_route h net s) = Json_200 True ''Cards organized successfully''"
proof -
  have t: "trace (organizeCards h net s)
           = trace s @ [Log_starting, Get_cards, Error_fetching_cards (listing_error net),
                        Log_found 0, Log_complete 0 0]"
    using assms by (simp add: organizeCards_unfold fetched_cards_def loop_start_def emit_def)
  have m: "movedCount (organizeCards h net s) = 0"
    using assms by (simp add: organizeCards_unfold fetched_cards_def loop_start_def emit_def)
  have e: "errorCount (organizeCards h net s) = 0"
    using assms by (simp add: organizeCards_unfold fetched_cards_def loop_start_def emit_def)
  have b: "board (organizeCards h net s) = board s"
    using assms by (simp add: organizeCards_unfold fetched_cards_def loop_start_def emit_def)
  have p: "put_requests (run_events s (organizeCards h net s)) = []"
    using assms by (simp add: organizeCards_puts fetched_cards_def)
  have r: "fst (organize_route h net s) = Json_200 True ''Cards organized successfully''"
    by (simp add: organize_route_def Let_def)
  show ?thesis
    by (intro conjI t m e b p r)
qed

theorem listing_failure_completes_empty_witness:
  "listing_fails net_down
   \<and> trace (organizeCards host_all net_down (board_of [card_A]))
       = [Log_starting, Get_cards, Error_fetching_cards FetchFailed, Log_found 0, Log_complete 0 0]
   \<and> board (organizeCards host_all net_down (board_of [card_A])) = [card_A]"
proof -
  have f: "listing_fails net_down"
    by (simp add: listing_fails_def net_down_def)
  have e: "listing_error net_down = FetchFailed"
    by (simp add: listing_error_def net_down_def)
  have t: "trace (board_of [card_A]) = []" and b: "board (board_of [card_A]) = [card_A]"
    by (simp_all add: board_of_def)
  show ?thesis
    using listing_failure_completes_empty [OF f, of host_all "board_of [card_A]"] f
    by (simp add: e t b)
qed

text \<open>
  Against C1 as stated: with the network down, the run over a board with one misplaced
  card returns normally, its last console line is the summary, and the route answers
  200 with \<open>success: true\<close>.
\<close>

theorem listing_failure_is_not_reported:
  "listing_fails net_down
   \<and> fst (organize_route host_all net_down (board_of [card_A]))
       = Json_200 True ''Cards organized successfully''
   \<and> last (trace (snd (organize_route host_all net_down (board_of [card_A]))))
       = Log_complete 0 0"
  by (simp add: organize_route_def listing_fails_def run_defs example_defs)

text \<open>
  C2, as amended. Every run ends with a summary line that holds two tallies, also when
  moves have failed: the number of move requests that succeeded and the number that
  failed. There is no tally of skipped cards.
\<close>

theorem summary_reports_moved_and_errors:
  "last (trace (organizeCards h net s))
     = Log_complete
         (length (filter (\<lambda>p. move_succeeds net (fst p) (snd p))
                   (put_requests (run_events s (organizeCards h net s)))))
         (length (filter (\<lambda>p. \<not> move_succeeds net (fst p) (snd p))
                   (put_requests (run_events s (organizeCards h net s)))))"
  by (simp only: organizeCards_last organizeCards_puts organizeCards_movedCount
      organizeCards_errorCount)

text \<open>
  Against C2 as stated: a board with one card whose list is not configured and a board
  with two such cards give the same summary, \<open>Moved: 0, Errors: 0\<close>; only the
  warnings, one for each card, tell the runs apart.
\<close>

theorem summary_has_no_skipped_count:
  "last (trace (organizeCards host_no_later net_up (board_of [card_A]))) = Log_complete 0 0
   \<and> last (trace (organizeCards host_no_later net_up (board_of [card_A, card_B]))) = Log_complete 0 0
   \<and> warnings (trace (organizeCards host_no_later net_up (board_of [card_A]))) = [''Later'']
   \<and> warnings (trace (organizeCards host_no_later net_up (board_of [card_A, card_B])))
       = [''Later'', ''Later'']"
  by (simp add: run_defs determineTargetList_def warnings_def example_defs)

text \<open>
  C4, as amended. A card that is already in the list mapped to its computed list name
  is not moved: the iteration issues no request, takes no time and leaves the board
  and the moved counter as they are. A second run right after a first one moves
  nothing, provided that the card ids of the board are distinct, the first run has
  listed the cards and none of its moves has failed, and every card keeps its list
  name over the time that the two runs take.
\<close>

theorem reconciliation_is_idempotent:
  "(LIST_MAPPING (process_env h) (determineTargetList (time_zone h) (clock s) (card_due c))
      = Some (card_idList c)
    \<longrightarrow> put_requests (run_events s (loop_body h net c s)) = []
        \<and> movedCount (loop_body h net c s) = movedCount s
        \<and> board (loop_body h net c s) = board s
        \<and> clock (loop_body h net c s) = clock s)
   \<and> (distinct (map card_id (board s))
      \<and> \<not> listing_fails net1
      \<and> errorCount (organizeCards h net1 s) = 0
      \<and> (\<forall>c \<in> set (board s). \<forall>t.
            clock s \<le> t \<and> t \<le> clock (organizeCards h net2 (organizeCards h net1 s))
            \<longrightarrow> determineTargetList (time_zone h) t (card_due c)
                  = determineTargetList (time_zone h) (clock s) (card_due c))
    \<longrightarrow> movedCount (organizeCards h net2 (organizeCards h net1 s)) = 0
        \<and> put_requests (run_events (organizeCards h net1 s)
             (organizeCards h net2 (organizeCards h net1 s))) = [])"
proof (intro conjI impI)
  assume "LIST_MAPPING (process_env h) (determineTargetList (time_zone h) (clock s) (card_due c))
      = Some (card_idList c)"
  then have none: "attempt h (clock s) c = []"
    by (simp add: attempt_def target_at_def)
  show "put_requests (run_events s (loop_body h net c s)) = []"
    using none
    by (cases rule: loop_body_cases [of h s c net])
      (simp_all add: emit_def run_events_def put_requests_def)
  show "movedCount (loop_body h net c s) = movedCount s"
    using none by (simp add: loop_body_movedCount)
  show "board (loop_body h net c s) = board s"
    using none by (cases rule: loop_body_cases [of h s c net]) (simp_all add: emit_def)
  show "clock (loop_body h net c s) = clock s"
    using none by (simp add: loop_body_clock)
next
  assume hyps: "distinct (map card_id (board s))
      \<and> \<not> listing_fails net1
      \<and> errorCount (organizeCards h net1 s) = 0
      \<and> (\<forall>c \<in> set (board s). \<forall>t.
            clock s \<le> t \<and> t \<le> clock (organizeCards h net2 (organizeCards h net1 s))
            \<longrightarrow> determineTargetList (time_zone h) t (card_due c)
                  = determineTargetList (time_zone h) (clock s) (card_due c))"
  have no_plan: "plan h (attempt_time net2) (clock (organizeCards h net1 s) + int (latency net2))
           (fetched_cards net2 (organizeCards h net1 s)) = []"
    using hyps by (intro second_run_moves_nothing) blast+
  show "movedCount (organizeCards h net2 (organizeCards h net1 s)) = 0"
    unfolding organizeCards_movedCount no_plan by simp
  show "put_requests (run_events (organizeCards h net1 s)
             (organizeCards h net2 (organizeCards h net1 s))) = []"
    unfolding organizeCards_puts no_plan ..
qed

theorem reconciliation_is_idempotent_witness:
  "movedCount (organizeCards host_all net_up (board_of [card_A, card_O, card_E])) = 2
   \<and> errorCount (organizeCards host_all net_up (board_of [card_A, card_O, card_E])) = 0
   \<and> movedCount (organizeCards host_all net_B_D_fail
        (organizeCards host_all net_up (board_of [card_A, card_O, card_E]))) = 0
   \<and> LIST_MAPPING (process_env host_all)
        (determineTargetList (time_zone host_all) (clock (board_of [card_E])) (card_due card_E))
      = Some (card_idList card_E)
   \<and> loop_body host_all net_up card_E (board_of [card_E]) = board_of [card_E]"
proof -
  define s where "s = board_of [card_A, card_O, card_E]"
  have m1: "movedCount (organizeCards host_all net_up s) = 2"
    by (simp add: s_def run_defs determineTargetList_def example_defs epoch_is_overdue)
  have e1: "errorCount (organizeCards host_all net_up s) = 0"
    by (simp add: s_def run_defs determineTargetList_def example_defs epoch_is_overdue)
  have d: "distinct (map card_id (board s))"
    by (simp add: s_def example_defs)
  have up: "\<not> listing_fails net_up"
    by (simp add: listing_fails_def net_up_def response_ok_def)
  have st: "\<forall>c \<in> set (board s). \<forall>t.
            clock s \<le> t \<and> t \<le> clock (organizeCards host_all net_B_D_fail (organizeCards host_all net_up s))
            \<longrightarrow> determineTargetList (time_zone host_all) t (card_due c)
                  = determineTargetList (time_zone host_all) (clock s) (card_due c)"
    by (simp add: s_def example_defs epoch_is_overdue)
      (simp add: determineTargetList_def)
  have two: "movedCount (organizeCards host_all net_B_D_fail (organizeCards host_all net_up s)) = 0"
    using reconciliation_is_idempotent [of host_all s card_E net_up net_up net_B_D_fail] d up e1 st
    by blast
  have placed: "LIST_MAPPING (process_env host_all)
        (determineTargetList (time_zone host_all) (clock (board_of [card_E])) (card_due card_E))
      = Some (card_idList card_E)"
    by (simp add: LIST_MAPPING_def determineTargetList_def example_defs)
  have same: "loop_body host_all net_up card_E (board_of [card_E]) = board_of [card_E]"
    by (simp add: run_defs determineTargetList_def example_defs)
  show ?thesis
    using m1 e1 two placed same unfolding s_def by (intro conjI)
qed

text \<open>
  Against C4 as stated: when the move of the only card fails in the first run, the board
  is the same before the second run as before the first, and the second run moves the
  card.
\<close>

theorem failed_move_is_retried:
  "board (organizeCards host_all net_moves_fail (board_of [card_A])) = [card_A]
   \<and> errorCount (organizeCards host_all net_moves_fail (board_of [card_A])) = 1
   \<and> movedCount (organizeCards host_all net_up
        (organizeCards host_all net_moves_fail (board_of [card_A]))) = 1"
  by (simp add: run_defs determineTargetList_def server_move_def example_defs)

text \<open>
  C5. The failure of a move never ends the run. For every run, the error counter is
  the number of move requests of the run that failed and the moved counter the number
  that succeeded; the move requests are the same, in the same order, as in the run in
  which every move succeeds; and when the listing succeeds and every card of the board
  requires a move whenever it is reached, every card is requested, in the order of the
  board. In particular, with the cards A, B, C, D, where the moves of B and D fail, all
  four are requested and the run counts two moved and two errors.
\<close>

theorem move_failures_are_isolated:
  "errorCount (organizeCards h net s)
     = length (filter (\<lambda>p. \<not> move_succeeds net (fst p) (snd p))
                (put_requests (run_events s (organizeCards h net s))))
   \<and> movedCount (organizeCards h net s)
     = length (filter (\<lambda>p. move_succeeds net (fst p) (snd p))
                (put_requests (run_events s (organizeCards h net s))))
   \<and> put_requests (run_events s (organizeCards h net s))
     = put_requests (run_events s (organizeCards h (all_moves_succeed net) s))
   \<and> (\<not> listing_fails net \<and> (\<forall>c \<in> set (board s). \<forall>t. needs_move h t c)
        \<longrightarrow> map fst (put_requests (run_events s (organizeCards h net s)))
              = map card_id (board s))"
proof -
  have 1: "errorCount (organizeCards h net s)
     = length (filter (\<lambda>p. \<not> move_succeeds net (fst p) (snd p))
                (put_requests (run_events s (organizeCards h net s))))"
    by (simp only: organizeCards_puts organizeCards_errorCount)
  have 2: "movedCount (organizeCards h net s)
     = length (filter (\<lambda>p. move_succeeds net (fst p) (snd p))
                (put_requests (run_events s (organizeCards h net s))))"
    by (simp only: organizeCards_puts organizeCards_movedCount)
  have 3: "put_requests (run_events s (organizeCards h net s))
     = put_requests (run_events s (organizeCards h (all_moves_succeed net) s))"
    by (simp only: organizeCards_puts all_moves_succeed_same)
  have 4: "map fst (put_requests (run_events s (organizeCards h net s))) = map card_id (board s)"
    if "\<not> listing_fails net" and "\<forall>c \<in> set (board s). \<forall>t. needs_move h t c"
    using that by (simp add: organizeCards_puts fetched_cards_def plan_all_needed)
  show ?thesis
    using 1 2 3 4 by blast
qed

theorem move_failures_are_isolated_witness:
  "\<not> listing_fails net_B_D_fail
   \<and> map fst (put_requests (run_events (board_of [card_A, card_B, card_C, card_D])
        (organizeCards host_all net_B_D_fail (board_of [card_A, card_B, card_C, card_D]))))
      = [''A'', ''B'', ''C'', ''D'']
   \<and> movedCount (organizeCards host_all net_B_D_fail (board_of [card_A, card_B, card_C, card_D])) = 2
   \<and> errorCount (organizeCards host_all net_B_D_fail (board_of [card_A, card_B, card_C, card_D])) = 2"
proof -
  define s where "s = board_of [card_A, card_B, card_C, card_D]"
  have up: "\<not> listing_fails net_B_D_fail"
    by (simp add: listing_fails_def net_B_D_fail_def response_ok_def)
  have need: "\<forall>c \<in> set (board s). \<forall>t. needs_move host_all t c"
    by (simp add: s_def board_of_def no_due_needs_move card_A_def card_B_def card_C_def
        card_D_def)
  have "map fst (put_requests (run_events s (organizeCards host_all net_B_D_fail s)))
          = map card_id (board s)"
    using move_failures_are_isolated [of host_all net_B_D_fail s] up need by blast
  moreover have "map card_id (board s) = [''A'', ''B'', ''C'', ''D'']"
    by (simp add: s_def board_of_def card_A_def card_B_def card_C_def card_D_def)
  ultimately have ids: "map fst (put_requests (run_events s (organizeCards host_all net_B_D_fail s)))
          = [''A'', ''B'', ''C'', ''D'']"
    by (simp only:)
  have m: "movedCount (organizeCards host_all net_B_D_fail s) = 2"
    by (simp add: s_def run_defs determineTargetList_def example_defs)
  have e: "errorCount (organizeCards host_all net_B_D_fail s) = 2"
    by (simp add: s_def run_defs determineTargetList_def example_defs)
  show ?thesis
    using up ids m e unfolding s_def by (intro conjI)
qed

text \<open>
  C6. For a card whose computed list name has no entry in the mapping, the iteration
  only logs the warning that names the list: neither counter changes, no move request
  is issued, and the loop goes on with the remaining cards.
\<close>

theorem missing_mapping_skips_card:
  assumes "LIST_MAPPING (process_env h) (determineTargetList (time_zone h) (clock s) (card_due c))
             = None"
  shows "loop_body h net c s
           = emit (Warn_no_list_id (determineTargetList (time_zone h) (clock s) (card_due c))) s
         \<and> errorCount (loop_body h net c s) = errorCount s
         \<and> movedCount (loop_body h net c s) = movedCount s
         \<and> put_requests (run_events s (loop_body h net c s)) = []
         \<and> fold (loop_body h net) (c # cs) s
             = fold (loop_body h net) cs
                 (emit (Warn_no_list_id (determineTargetList (time_zone h) (clock s) (card_due c))) s)"
proof -
  have step: "loop_body h net c s
           = emit (Warn_no_list_id (determineTargetList (time_zone h) (clock s) (card_due c))) s"
    using assms by (simp add: loop_body_no_target target_at_def)
  show ?thesis
    by (simp add: step emit_def run_events_def put_requests_def)
qed

theorem missing_mapping_skips_card_witness:
  "LIST_MAPPING (process_env host_no_later)
       (determineTargetList (time_zone host_no_later) (clock (board_of [card_A, card_B]))
          (card_due card_A)) = None
   \<and> trace (loop_body host_no_later net_up card_A (board_of [card_A, card_B]))
       = [Warn_no_list_id ''Later'']
   \<and> trace (fold (loop_body host_no_later net_up) [card_A, card_E] (board_of [card_A, card_B]))
       = [Warn_no_list_id ''Later'', Warn_no_list_id ''Later'']"
proof -
  have hyp: "LIST_MAPPING (process_env host_no_later)
       (determineTargetList (time_zone host_no_later) (clock (board_of [card_A, card_B]))
          (card_due card_A)) = None"
    by (simp add: LIST_MAPPING_def determineTargetList_def example_defs)
  have name: "determineTargetList (time_zone host_no_later) (clock (board_of [card_A, card_B]))
          (card_due card_A) = ''Later''"
    by (simp add: determineTargetList_def example_defs)
  have rest: "trace (fold (loop_body host_no_later net_up) [card_E]
                 (emit (Warn_no_list_id ''Later'') (board_of [card_A, card_B])))
       = [Warn_no_list_id ''Later'', Warn_no_list_id ''Later'']"
    by (simp add: run_defs determineTargetList_def example_defs)
  show ?thesis
    using missing_mapping_skips_card [OF hyp, of net_up "[card_E]"] hyp rest
    by (simp add: name) (simp add: emit_def board_of_def)
qed

text \<open>
  C9. An iteration that requires a move issues one request and then sets one timer of
  100 ms, whether the move succeeded or failed, so that the next card is reached at
  least 100 ms after the attempt has ended; an iteration that requires no move sets no
  timer and takes no time.
\<close>

theorem delay_after_each_move_attempt:
  "(needs_move h (clock s) c \<longrightarrow>
      length (put_requests (run_events s (loop_body h net c s))) = 1
      \<and> timeouts (run_events s (loop_body h net c s)) = [100]
      \<and> last (trace (loop_body h net c s)) = Timeout_set 100
      \<and> clock (loop_body h net c s) = clock s + int (latency net) + 100 + int (timer_lag net)
      \<and> clock (loop_body h net c s) \<ge> clock s + int (latency net) + 100)
   \<and> (\<not> needs_move h (clock s) c \<longrightarrow>
      put_requests (run_events s (loop_body h net c s)) = []
      \<and> timeouts (run_events s (loop_body h net c s)) = []
      \<and> clock (loop_body h net c s) = clock s)"
  by (cases rule: loop_body_cases [of h s c net])
    (simp_all add: needs_move_attempt emit_def run_events_def put_requests_def timeouts_def)

theorem delay_after_each_move_attempt_witness:
  "needs_move host_all (clock (board_of [card_A, card_E])) card_A
   \<and> clock (loop_body host_all net_moves_fail card_A (board_of [card_A, card_E]))
       = sunday_night + 143
   \<and> timeouts (run_events (board_of [card_A, card_E])
        (loop_body host_all net_moves_fail card_A (board_of [card_A, card_E]))) = [100]
   \<and> \<not> needs_move host_all (clock (board_of [card_A, card_E])) card_E
   \<and> clock (loop_body host_all net_moves_fail card_E (board_of [card_A, card_E])) = sunday_night
   \<and> timeouts (run_events (board_of [card_A, card_E])
        (loop_body host_all net_moves_fail card_E (board_of [card_A, card_E]))) = []"
proof -
  have a: "needs_move host_all (clock (board_of [card_A, card_E])) card_A"
    by (simp add: needs_move_def target_at_def determineTargetList_def LIST_MAPPING_def
        example_defs)
  have e: "\<not> needs_move host_all (clock (board_of [card_A, card_E])) card_E"
    by (simp add: needs_move_def target_at_def determineTargetList_def LIST_MAPPING_def
        example_defs)
  have k: "clock (board_of [card_A, card_E]) = sunday_night"
    and l: "latency net_moves_fail = 40" and g: "timer_lag net_moves_fail = 3"
    by (simp_all add: example_defs)
  show ?thesis
    using delay_after_each_move_attempt [of host_all "board_of [card_A, card_E]" card_A net_moves_fail]
      delay_after_each_move_attempt [of host_all "board_of [card_A, card_E]" card_E net_moves_fail]
      a e
    by (simp add: k l g)
qed

end
